theory Spec2Isabelle
  imports Complex_Main
begin

section \<open>The token manager of src/github/token-manager.ts\<close>

text \<open>
  A shallow embedding of the class \<open>TokenManager\<close>. The clock and the counters of
  the source are integers. The four numbers of a retry policy are JavaScript numbers
  and are rationals here, with exact arithmetic; \<open>NaN\<close>, the infinities and rounding
  are left out. Console output is not part of the model.
  Everything the class asks of its surroundings (the clock, the environment variable,
  the identity provider, the exchange endpoint) is a field of the record \<open>world\<close>;
  a function that talks to the surroundings takes a world and returns the next one.
\<close>

subsection \<open>Values that are thrown\<close>

text \<open>
  An \<open>Error\<close> object: its \<open>name\<close>, its \<open>message\<close>, and the \<open>status\<close> property that
  an HTTP client's request error carries (absent on a plain \<open>new Error(msg)\<close>).
\<close>

datatype js_error = JsError (err_name: string) (err_message: string) (err_status: "int option")

text \<open>\<open>new Error(msg)\<close>.\<close>

definition new_Error :: "string \<Rightarrow> js_error" where
  "new_Error msg = JsError ''Error'' msg None"

text \<open>
  What a \<open>catch (error)\<close> clause may receive: an \<open>Error\<close> object, or some other value,
  kept as the string that \<open>String(value)\<close> gives.
\<close>

datatype thrown = ErrorObj js_error | NonError string

text \<open>\<open>Error.prototype.toString\<close>, used by the template literal in \<open>doRefresh\<close>.\<close>

definition error_toString :: "js_error \<Rightarrow> string" where
  "error_toString e =
     (if err_name e = [] then err_message e
      else if err_message e = [] then err_name e
      else err_name e @ '': '' @ err_message e)"

text \<open>\<open>error instanceof Error ? error : new Error(String(error))\<close>.\<close>

fun as_Error :: "thrown \<Rightarrow> js_error" where
  "as_Error (ErrorObj e) = e"
| "as_Error (NonError s) = new_Error s"

subsection \<open>The surroundings\<close>

text \<open>
  The body of a response as \<open>response.json()\<close> delivers it: the call rejects when the
  body is no JSON, and otherwise gives an object of which the source reads
  \<open>error.message\<close>, \<open>token\<close> and \<open>app_token\<close>, each of them optional.
\<close>

record json_body =
  error_message :: "string option"
  token_field :: "string option"
  app_token_field :: "string option"

datatype body_result = InvalidJson js_error | Json json_body

record response =
  status :: int
  statusText :: string
  body :: body_result

text \<open>\<open>response.ok\<close> is true for the statuses 200 to 299.\<close>

definition ok :: "response \<Rightarrow> bool" where
  "ok r = (200 \<le> status r \<and> status r \<le> 299)"

datatype fetch_result = NetworkError js_error | Response response

text \<open>
  \<open>now\<close> is what \<open>Date.now()\<close> reads; \<open>override\<close> is
  \<open>process.env.OVERRIDE_GITHUB_TOKEN\<close> (\<open>None\<close> when unset). The \<open>k\<close>-th call of
  \<open>core.getIDToken\<close> takes \<open>fst (idp k)\<close> milliseconds and gives the token
  \<open>snd (idp k)\<close>, or rejects when that is \<open>None\<close>; the \<open>k\<close>-th \<open>fetch\<close>, sent with the
  given \<open>Authorization\<close> header, takes \<open>fst (endpoint k h)\<close> milliseconds and gives
  \<open>snd (endpoint k h)\<close>. The two counters say how many calls have been made.
\<close>

record world =
  now :: int
  override :: "string option"
  idp :: "nat \<Rightarrow> int \<times> string option"
  idp_calls :: nat
  endpoint :: "nat \<Rightarrow> string \<Rightarrow> int \<times> fetch_result"
  fetch_calls :: nat

text \<open>
  The time after which the runtime's \<open>setTimeout\<close> fires: a delay below 1 or above
  \<open>2^31 - 1\<close> is replaced by 1, and a delay that is not whole is cut to its whole
  part.
\<close>

definition timeout_ms :: "rat \<Rightarrow> int" where
  "timeout_ms delayMs = (if delayMs < 1 \<or> 2147483647 < delayMs then 1 else \<lfloor>delayMs\<rfloor>)"

text \<open>\<open>await new Promise((resolve) => setTimeout(resolve, delayMs))\<close>.\<close>

definition sleep :: "rat \<Rightarrow> world \<Rightarrow> world" where
  "sleep delayMs w = w\<lparr>now := now w + timeout_ms delayMs\<rparr>"

subsection \<open>retryWithBackoff\<close>

text \<open>The four fields are of type \<open>number\<close> and optional.\<close>

record RetryOptions =
  maxAttempts :: "rat option"
  initialDelayMs :: "rat option"
  maxDelayMs :: "rat option"
  backoffFactor :: "rat option"

text \<open>The default argument \<open>options = {}\<close>.\<close>

definition no_options :: RetryOptions where
  "no_options = \<lparr>maxAttempts = None, initialDelayMs = None, maxDelayMs = None,
     backoffFactor = None\<rparr>"

text \<open>
  What the executor itself does: it calls the operation, and it sets a timer, with the
  delay it hands to \<open>setTimeout\<close>.
\<close>

datatype retry_event = Called | Slept rat

type_synonym 'a operation = "world \<Rightarrow> (thrown + 'a) \<times> world"

text \<open>
  The \<open>for\<close> loop, entered with the loop variable \<open>attempt\<close> and the two mutable locals
  \<open>delayMs\<close> and \<open>lastError\<close> (\<open>None\<close> is \<open>undefined\<close>). Leaving the loop is
  \<open>throw lastError\<close>.
\<close>

function retry_loop ::
  "'a operation \<Rightarrow> rat \<Rightarrow> rat \<Rightarrow> rat \<Rightarrow> int \<Rightarrow> rat \<Rightarrow> js_error option \<Rightarrow> world
     \<Rightarrow> (js_error option + 'a) \<times> retry_event list \<times> world" where
  "retry_loop operation maxA maxD factor attempt delayMs lastError w =
     (if of_int attempt \<le> maxA then
        (case operation w of
           (Inr v, w1) \<Rightarrow> (Inr v, [Called], w1)
         | (Inl error, w1) \<Rightarrow>
             (if of_int attempt < maxA then
                (case retry_loop operation maxA maxD factor (attempt + 1)
                        (min (delayMs * factor) maxD) (Some (as_Error error))
                        (sleep delayMs w1) of
                   (r, evs, w2) \<Rightarrow> (r, Called # Slept delayMs # evs, w2))
              else
                (case retry_loop operation maxA maxD factor (attempt + 1) delayMs
                        (Some (as_Error error)) w1 of
                   (r, evs, w2) \<Rightarrow> (r, Called # evs, w2))))
      else (Inl lastError, [], w))"
  by pat_completeness auto
termination
proof (relation "measure (\<lambda>(operation, maxA, maxD, factor, attempt, delayMs, lastError, w).
        nat (\<lfloor>maxA\<rfloor> + 1 - attempt))")
  show "wf (measure (\<lambda>(operation, maxA, maxD, factor, attempt, delayMs, lastError, w).
        nat (\<lfloor>maxA :: rat\<rfloor> + 1 - attempt)))"
    by simp
qed (simp_all add: le_floor_iff)

declare retry_loop.simps [simp del]

text \<open>
  The destructuring of \<open>options\<close> with its defaults: a field that is absent takes
  the default.
\<close>

definition or_default :: "rat option \<Rightarrow> rat \<Rightarrow> rat" where
  "or_default field d = (case field of None \<Rightarrow> d | Some v \<Rightarrow> v)"

definition attempts_of :: "RetryOptions \<Rightarrow> rat" where
  "attempts_of options = or_default (maxAttempts options) 3"

definition initial_delay_of :: "RetryOptions \<Rightarrow> rat" where
  "initial_delay_of options = or_default (initialDelayMs options) 5000"

definition max_delay_of :: "RetryOptions \<Rightarrow> rat" where
  "max_delay_of options = or_default (maxDelayMs options) 20000"

definition factor_of :: "RetryOptions \<Rightarrow> rat" where
  "factor_of options = or_default (backoffFactor options) 2"

definition retryWithBackoff ::
  "'a operation \<Rightarrow> RetryOptions \<Rightarrow> world
     \<Rightarrow> (js_error option + 'a) \<times> retry_event list \<times> world" where
  "retryWithBackoff operation options w =
     retry_loop operation (attempts_of options) (max_delay_of options) (factor_of options)
       1 (initial_delay_of options) None w"

text \<open>
  The specification's delays: the first one is the initial delay, and each next one is
  \<open>min (delay * backoffFactor) maxDelay\<close>.
\<close>

primrec nth_delay :: "rat \<Rightarrow> rat \<Rightarrow> rat \<Rightarrow> nat \<Rightarrow> rat" where
  "nth_delay d maxD factor 0 = d"
| "nth_delay d maxD factor (Suc k) = min (nth_delay d maxD factor k * factor) maxD"

text \<open>
  A delay that \<open>setTimeout\<close> takes as it is: a whole number of milliseconds from 1 to
  \<open>2^31 - 1\<close>.
\<close>

definition honoured :: "rat \<Rightarrow> bool" where
  "honoured delayMs = (of_int \<lfloor>delayMs\<rfloor> = delayMs \<and> 1 \<le> delayMs \<and> delayMs \<le> 2147483647)"

text \<open>
  The world in which the operation is called for the \<open>(k+1)\<close>-th time when every call
  before has failed and each failure has been followed by a suspension of the whole
  delay of its turn: the clock stands later by that delay.
\<close>

primrec world_before :: "'a operation \<Rightarrow> rat \<Rightarrow> rat \<Rightarrow> rat \<Rightarrow> nat \<Rightarrow> world \<Rightarrow> world" where
  "world_before operation d maxD factor 0 w = w"
| "world_before operation d maxD factor (Suc k) w =
     (let w1 = snd (operation (world_before operation d maxD factor k w))
      in w1\<lparr>now := now w1 + \<lfloor>nth_delay d maxD factor k\<rfloor>\<rparr>)"

text \<open>\<open>n\<close> calls, each followed by its wait, and one more call.\<close>

definition calls_and_waits :: "rat \<Rightarrow> rat \<Rightarrow> rat \<Rightarrow> nat \<Rightarrow> retry_event list" where
  "calls_and_waits d maxD factor n =
     concat (map (\<lambda>k. [Called, Slept (nth_delay d maxD factor k)]) [0..<n]) @ [Called]"

text \<open>How often the operation was called, and the waits in their order.\<close>

fun calls :: "retry_event list \<Rightarrow> nat" where
  "calls [] = 0"
| "calls (Called # evs) = Suc (calls evs)"
| "calls (Slept d # evs) = calls evs"

fun waits :: "retry_event list \<Rightarrow> rat list" where
  "waits [] = []"
| "waits (Called # evs) = waits evs"
| "waits (Slept d # evs) = d # waits evs"

subsection \<open>The two network steps\<close>

definition getOidcToken :: "world \<Rightarrow> (js_error + string) \<times> world" where
  "getOidcToken w =
     (let k = idp_calls w;
          w1 = w\<lparr>idp_calls := Suc k, now := now w + fst (idp w k)\<rparr>
      in case snd (idp w k) of
           Some oidcToken \<Rightarrow> (Inr oidcToken, w1)
         | None \<Rightarrow> (Inl (new_Error
             ''Could not fetch an OIDC token. Did you remember to add `id-token: write` to your workflow permissions?''),
             w1))"

definition exchangeForAppToken :: "string \<Rightarrow> world \<Rightarrow> (js_error + string) \<times> world" where
  "exchangeForAppToken oidcToken w =
     (let k = fetch_calls w;
          answer = endpoint w k (''Bearer '' @ oidcToken);
          w1 = w\<lparr>fetch_calls := Suc k, now := now w + fst answer\<rparr>
      in case snd answer of
           NetworkError e \<Rightarrow> (Inl e, w1)
         | Response resp \<Rightarrow>
             (if \<not> ok resp then
                (case body resp of
                   InvalidJson e \<Rightarrow> (Inl e, w1)
                 | Json responseJson \<Rightarrow>
                     (Inl (new_Error (case error_message responseJson of
                                        Some m \<Rightarrow> m
                                      | None \<Rightarrow> ''Unknown error'')), w1))
              else
                (case body resp of
                   InvalidJson e \<Rightarrow> (Inl e, w1)
                 | Json appTokenData \<Rightarrow>
                     (let appToken =
                        (case token_field appTokenData of
                           Some t \<Rightarrow> if t \<noteq> [] then Some t else app_token_field appTokenData
                         | None \<Rightarrow> app_token_field appTokenData)
                      in case appToken of
                           Some t \<Rightarrow>
                             if t \<noteq> [] then (Inr t, w1)
                             else (Inl (new_Error ''App token not found in response''), w1)
                         | None \<Rightarrow>
                             (Inl (new_Error ''App token not found in response''), w1)))))"

text \<open>A field of the body that is present and is not the empty string.\<close>

definition filled :: "string option \<Rightarrow> bool" where
  "filled field = (case field of None \<Rightarrow> False | Some t \<Rightarrow> t \<noteq> [])"

text \<open>An operation handed to the executor rejects with the error object of the step.\<close>

definition as_operation :: "(world \<Rightarrow> (js_error + 'a) \<times> world) \<Rightarrow> 'a operation" where
  "as_operation f w = (case f w of (Inl e, w1) \<Rightarrow> (Inl (ErrorObj e), w1) | (Inr v, w1) \<Rightarrow> (Inr v, w1))"

subsection \<open>The manager\<close>

text \<open>
  The three mutable fields. A promise is known by its number in the table of promises
  of the runtime below.
\<close>

record manager =
  token :: "string option"
  tokenExpiry :: "int option"
  refreshPromise :: "nat option"

definition new_manager :: manager where
  "new_manager = \<lparr>token = None, tokenExpiry = None, refreshPromise = None\<rparr>"

definition TOKEN_LIFETIME_MS :: int where
  "TOKEN_LIFETIME_MS = 55 * 60 * 1000"

definition isTokenValid :: "manager \<Rightarrow> int \<Rightarrow> bool" where
  "isTokenValid m current =
     (case token m of
        None \<Rightarrow> False
      | Some t \<Rightarrow>
          (if t = [] then False
           else (case tokenExpiry m of
                   None \<Rightarrow> False
                 | Some expiry \<Rightarrow> (let expiryBuffer = 5 * 60 * 1000 in current < expiry - expiryBuffer))))"

text \<open>
  The template literal \<open>${error}\<close> in the \<open>catch\<close> clause of \<open>doRefresh\<close>, where
  \<open>error\<close> is what \<open>retryWithBackoff\<close> threw.
\<close>

definition render_thrown :: "js_error option \<Rightarrow> string" where
  "render_thrown e = (case e of None \<Rightarrow> ''undefined'' | Some err \<Rightarrow> error_toString err)"

text \<open>
  \<open>doRefresh\<close> after the test of the override: the two steps, each under
  \<open>retryWithBackoff\<close> with the default options, then the two assignments, all inside
  the \<open>try\<close>.
\<close>

definition doRefresh_network :: "manager \<Rightarrow> world \<Rightarrow> (js_error + string) \<times> manager \<times> world" where
  "doRefresh_network m w =
     (case retryWithBackoff (as_operation getOidcToken) no_options w of
        (Inl error, evs1, w1) \<Rightarrow>
          (Inl (new_Error (''Token refresh failed: '' @ render_thrown error)), m, w1)
      | (Inr oidcToken, evs1, w1) \<Rightarrow>
          (case retryWithBackoff (as_operation (exchangeForAppToken oidcToken)) no_options w1 of
             (Inl error, evs2, w2) \<Rightarrow>
               (Inl (new_Error (''Token refresh failed: '' @ render_thrown error)), m, w2)
           | (Inr appToken, evs2, w2) \<Rightarrow>
               (Inr appToken,
                m\<lparr>token := Some appToken, tokenExpiry := Some (now w2 + TOKEN_LIFETIME_MS)\<rparr>,
                w2)))"

text \<open>\<open>if (providedToken)\<close>: the variable is set and is not the empty string.\<close>

definition provided :: "world \<Rightarrow> string option" where
  "provided w = (case override w of None \<Rightarrow> None | Some t \<Rightarrow> if t = [] then None else Some t)"

definition doRefresh :: "manager \<Rightarrow> world \<Rightarrow> (js_error + string) \<times> manager \<times> world" where
  "doRefresh m w =
     (case provided w of
        Some providedToken \<Rightarrow>
          (Inr providedToken,
           m\<lparr>token := Some providedToken,
             tokenExpiry := Some (now w + 365 * 24 * 60 * 60 * 1000)\<rparr>,
           w)
      | None \<Rightarrow> doRefresh_network m w)"

definition resetInstance :: "manager \<Rightarrow> manager" where
  "resetInstance m = m\<lparr>token := None, tokenExpiry := None, refreshPromise := None\<rparr>"

subsection \<open>Promises and the event loop\<close>

text \<open>
  The class is used from one thread; what is concurrent are the calls whose \<open>async\<close>
  bodies are suspended at an \<open>await\<close>. The runtime holds the manager, the world and the
  promises that \<open>doRefresh\<close> has returned so far: promise \<open>p\<close> is pending
  (\<open>settled = None\<close>) or settled with a token or an error, and \<open>owner_waiting\<close> says
  that the call of \<open>refreshToken\<close> that created it is still suspended at
  \<open>await this.refreshPromise\<close>, its \<open>finally\<close> block not yet run.
\<close>

datatype promise = Promise (settled: "(js_error + string) option") (owner_waiting: bool)

record runtime =
  mgr :: manager
  env :: world
  promises :: "nat \<Rightarrow> promise"
  allocated :: nat

text \<open>
  What the caller of an \<open>async\<close> method holds once the synchronous part of the call has
  run: a value already there, or a promise of the table to wait for.
\<close>

datatype handle = Ready string | Awaiting nat

text \<open>
  The synchronous part of \<open>refreshToken()\<close>. With a promise in \<open>refreshPromise\<close> the
  call returns that promise. Otherwise it calls \<open>doRefresh()\<close>, which runs up to its
  first \<open>await\<close>: with an override it runs to its end, there being no \<open>await\<close> on that
  path, and the promise it returns is settled; without one it is suspended in the
  first network step and the promise is pending. The promise is stored in
  \<open>refreshPromise\<close> and the call is suspended at its own \<open>await\<close>.
\<close>

definition refreshToken_call :: "runtime \<Rightarrow> handle \<times> runtime" where
  "refreshToken_call rt =
     (case refreshPromise (mgr rt) of
        Some p \<Rightarrow> (Awaiting p, rt)
      | None \<Rightarrow>
          (let p = allocated rt in
           case provided (env rt) of
             Some providedToken \<Rightarrow>
               (case doRefresh (mgr rt) (env rt) of
                  (r, m1, w1) \<Rightarrow>
                    (Awaiting p,
                     rt\<lparr>mgr := m1\<lparr>refreshPromise := Some p\<rparr>, env := w1,
                        promises := (promises rt)(p := Promise (Some r) True),
                        allocated := Suc p\<rparr>))
           | None \<Rightarrow>
               (Awaiting p,
                rt\<lparr>mgr := (mgr rt)\<lparr>refreshPromise := Some p\<rparr>,
                   promises := (promises rt)(p := Promise None True),
                   allocated := Suc p\<rparr>)))"

text \<open>The synchronous part of \<open>getToken()\<close>; \<open>the\<close> is the source's \<open>this.token!\<close>.\<close>

definition getToken_call :: "runtime \<Rightarrow> handle \<times> runtime" where
  "getToken_call rt =
     (if isTokenValid (mgr rt) (now (env rt)) then (Ready (the (token (mgr rt))), rt)
      else refreshToken_call rt)"

text \<open>
  The suspended \<open>doRefresh\<close> behind promise \<open>p\<close> runs to its end: the network steps,
  the assignments to the fields as they are at that moment, and the promise settles.
  On a settled promise nothing happens. The outcome is returned with the runtime.
\<close>

definition settle :: "nat \<Rightarrow> runtime \<Rightarrow> (js_error + string) \<times> runtime" where
  "settle p rt =
     (case settled (promises rt p) of
        Some r \<Rightarrow> (r, rt)
      | None \<Rightarrow>
          (case doRefresh_network (mgr rt) (env rt) of
             (r, m1, w1) \<Rightarrow>
               (r, rt\<lparr>mgr := m1, env := w1,
                      promises := (promises rt)(p := Promise (Some r) (owner_waiting (promises rt p)))\<rparr>)))"

text \<open>
  The call of \<open>refreshToken\<close> that created promise \<open>p\<close> resumes after its \<open>await\<close>:
  the \<open>finally\<close> block runs, whatever the outcome and whatever \<open>refreshPromise\<close> holds.
\<close>

definition owner_resume :: "nat \<Rightarrow> runtime \<Rightarrow> runtime" where
  "owner_resume p rt =
     (case settled (promises rt p) of
        None \<Rightarrow> rt
      | Some r \<Rightarrow>
          (if owner_waiting (promises rt p)
           then rt\<lparr>mgr := (mgr rt)\<lparr>refreshPromise := None\<rparr>,
                   promises := (promises rt)(p := Promise (Some r) False)\<rparr>
           else rt))"

text \<open>
  A caller waits for its handle while no other call is made. The creator of a promise
  is the first to have subscribed to it, so its \<open>finally\<close> block has run by the time
  any caller that waits for the promise goes on.
\<close>

fun await :: "handle \<Rightarrow> runtime \<Rightarrow> (js_error + string) \<times> runtime" where
  "await (Ready t) rt = (Inr t, rt)"
| "await (Awaiting p) rt = (case settle p rt of (r, rt1) \<Rightarrow> (r, owner_resume p rt1))"

definition refreshToken :: "runtime \<Rightarrow> (js_error + string) \<times> runtime" where
  "refreshToken rt = (case refreshToken_call rt of (h, rt1) \<Rightarrow> await h rt1)"

definition getToken :: "runtime \<Rightarrow> (js_error + string) \<times> runtime" where
  "getToken rt = (case getToken_call rt of (h, rt1) \<Rightarrow> await h rt1)"

text \<open>
  \<open>n\<close> calls of \<open>getToken()\<close> made one after the other before any of them is resumed,
  as \<open>Array(n).fill(null).map(() => tokenManager.getToken())\<close> of the test suite makes
  them.
\<close>

fun getToken_calls :: "nat \<Rightarrow> runtime \<Rightarrow> handle list \<times> runtime" where
  "getToken_calls 0 rt = ([], rt)"
| "getToken_calls (Suc n) rt =
     (case getToken_call rt of
        (h, rt1) \<Rightarrow> (case getToken_calls n rt1 of (hs, rt2) \<Rightarrow> (h # hs, rt2)))"

text \<open>What a caller that holds \<open>h\<close> sees in runtime \<open>rt\<close>, if its result is there.\<close>

fun observe :: "runtime \<Rightarrow> handle \<Rightarrow> (js_error + string) option" where
  "observe rt (Ready t) = Some (Inr t)"
| "observe rt (Awaiting p) = settled (promises rt p)"

subsection \<open>The request hook of the clients\<close>

text \<open>
  Of the options of a request the hook reads and writes \<open>headers.authorization\<close>; the
  rest of the request is \<open>route\<close>. A request rejects with an error object, whose
  \<open>status\<close> the hook reads. The hook's own steps are recorded: each request it sends,
  with the options it sends, and each call of \<open>refreshToken\<close>.
\<close>

record request_options =
  authorization :: string
  route :: string

type_synonym 'r request = "request_options \<Rightarrow> world \<Rightarrow> (js_error + 'r) \<times> world"

datatype hook_event = Sent request_options | Refreshed

definition auth_hook ::
  "'r request \<Rightarrow> request_options \<Rightarrow> runtime \<Rightarrow> (js_error + 'r) \<times> hook_event list \<times> runtime" where
  "auth_hook request options rt =
     (case request options (env rt) of
        (Inr v, w1) \<Rightarrow> (Inr v, [Sent options], rt\<lparr>env := w1\<rparr>)
      | (Inl error, w1) \<Rightarrow>
          (if err_status error = Some 401 \<or> err_status error = Some 403 then
             (case refreshToken (rt\<lparr>env := w1\<rparr>) of
                (Inl e, rt2) \<Rightarrow> (Inl e, [Sent options, Refreshed], rt2)
              | (Inr newToken, rt2) \<Rightarrow>
                  (let options2 = options\<lparr>authorization := ''token '' @ newToken\<rparr>
                   in case request options2 (env rt2) of
                        (r, w3) \<Rightarrow>
                          (r, [Sent options, Refreshed, Sent options2], rt2\<lparr>env := w3\<rparr>)))
           else (Inl error, [Sent options], rt\<lparr>env := w1\<rparr>)))"

text \<open>
  \<open>createOctokitWithRetry\<close> writes this closure twice, as \<open>request.hook\<close> in the
  options of \<open>new Octokit\<close> and in those of \<open>graphql.defaults\<close>. What a request through
  a produced client runs depends on the client. The GraphQL client calls the
  \<open>request.hook\<close> of its options around each request, so it runs the closure. The
  constructor of \<open>Octokit\<close> puts its own collection of hooks in the place of the
  \<open>request.hook\<close> it is given, so the closure is never called on the REST client: a
  request is sent once and its result, token error or not, is what the caller gets.
\<close>

datatype client = Rest | GraphQL

fun hook_of ::
  "client \<Rightarrow> 'r request \<Rightarrow> request_options \<Rightarrow> runtime
     \<Rightarrow> (js_error + 'r) \<times> hook_event list \<times> runtime" where
  "hook_of Rest request options rt =
     (case request options (env rt) of (r, w1) \<Rightarrow> (r, [Sent options], rt\<lparr>env := w1\<rparr>))"
| "hook_of GraphQL request options rt = auth_hook request options rt"

subsection \<open>Worlds and requests of the test suite\<close>

text \<open>
  The mocks of test/token-manager.test.ts: the identity provider gives
  \<open>mock-oidc-token\<close>, the endpoint answers 200 with \<open>{token: "mock-app-token"}\<close>,
  and no override is set. The variants change one thing each.
\<close>

definition mock_response :: response where
  "mock_response = \<lparr>status = 200, statusText = ''OK'',
     body = Json \<lparr>error_message = None, token_field = Some ''mock-app-token'',
                   app_token_field = None\<rparr>\<rparr>"

definition mock_world :: world where
  "mock_world = \<lparr>now = 1000, override = None,
     idp = (\<lambda>k. (20, Some ''mock-oidc-token'')), idp_calls = 0,
     endpoint = (\<lambda>k h. (30, Response mock_response)), fetch_calls = 0\<rparr>"

definition override_world :: world where
  "override_world = mock_world\<lparr>override := Some ''override-token''\<rparr>"

text \<open>The identity provider rejects the first two calls.\<close>

definition flaky_world :: world where
  "flaky_world = mock_world\<lparr>idp := (\<lambda>k. (20, if k < 2 then None else Some ''mock-oidc-token''))\<rparr>"

text \<open>The identity provider rejects every call.\<close>

definition denied_world :: world where
  "denied_world = mock_world\<lparr>idp := (\<lambda>k. (20, None))\<rparr>"

text \<open>The endpoint answers 500, or 503, with the JSON body \<open>{}\<close>.\<close>

definition error_response :: "int \<Rightarrow> response" where
  "error_response code = \<lparr>status = code, statusText = ''Server Error'',
     body = Json \<lparr>error_message = None, token_field = None, app_token_field = None\<rparr>\<rparr>"

definition error_world :: "int \<Rightarrow> world" where
  "error_world code = mock_world\<lparr>endpoint := (\<lambda>k h. (30, Response (error_response code)))\<rparr>"

text \<open>\<open>fetch\<close> itself rejects: the endpoint cannot be reached.\<close>

definition offline_world :: world where
  "offline_world = mock_world\<lparr>endpoint :=
     (\<lambda>k h. (30, NetworkError (JsError ''TypeError'' ''fetch failed'' None)))\<rparr>"

text \<open>
  An operation that fails each time with an error of its own: the message of the
  \<open>k\<close>-th failure is \<open>k\<close> times the letter x. It counts its calls in \<open>idp_calls\<close>.
\<close>

definition failing_operation :: "unit operation" where
  "failing_operation w =
     (Inl (ErrorObj (JsError ''Error'' (replicate (Suc (idp_calls w)) CHR ''x'') None)),
      w\<lparr>idp_calls := Suc (idp_calls w)\<rparr>)"

text \<open>
  Three policies: one with every field set, one whose \<open>maxAttempts\<close> is two and a
  half, and one whose delays are beyond what \<open>setTimeout\<close> takes.
\<close>

definition short_policy :: RetryOptions where
  "short_policy = \<lparr>maxAttempts = Some 3, initialDelayMs = Some 100, maxDelayMs = Some 150,
     backoffFactor = Some 2\<rparr>"

definition fractional_policy :: RetryOptions where
  "fractional_policy = no_options\<lparr>maxAttempts := Some (5 / 2)\<rparr>"

definition long_policy :: RetryOptions where
  "long_policy = no_options\<lparr>initialDelayMs := Some 3000000000, maxDelayMs := Some 4000000000\<rparr>"

text \<open>A request that the server refuses with 401 whatever its credentials.\<close>

definition refused_request :: "unit request" where
  "refused_request options w = (Inl (JsError ''HttpError'' ''Unauthorized'' (Some 401)), w)"

text \<open>A request that the server accepts with the credentials \<open>t\<close> and refuses otherwise.\<close>

definition guarded_request :: "string \<Rightarrow> unit request" where
  "guarded_request t options w =
     (if authorization options = ''token '' @ t then (Inr (), w)
      else (Inl (JsError ''HttpError'' ''Bad credentials'' (Some 401)), w))"

definition stale_options :: request_options where
  "stale_options = \<lparr>authorization = ''token stale'', route = ''GET /user''\<rparr>"

text \<open>
  A manager whose token has run out, the manager after a refresh at time 1050 of the
  mocked world, and runtimes around them.
\<close>

definition stale_manager :: manager where
  "stale_manager = \<lparr>token = Some ''old-token'', tokenExpiry = Some 0, refreshPromise = None\<rparr>"

definition fresh_manager :: manager where
  "fresh_manager = \<lparr>token = Some ''mock-app-token'',
     tokenExpiry = Some (1050 + TOKEN_LIFETIME_MS), refreshPromise = None\<rparr>"

definition runtime_of :: "manager \<Rightarrow> world \<Rightarrow> runtime" where
  "runtime_of m w = \<lparr>mgr = m, env = w, promises = (\<lambda>p. Promise None False), allocated = 0\<rparr>"

subsection \<open>The invariant of the cache\<close>

text \<open>
  The stored token is never the empty string: the fields are private, and the class
  stores only an override that passed \<open>if (providedToken)\<close> or an app token that
  passed \<open>if (!appToken)\<close>.
\<close>

definition cache_ok :: "manager \<Rightarrow> bool" where
  "cache_ok m = (token m \<noteq> Some [])"

section \<open>Properties\<close>

subsection \<open>The retry loop\<close>

lemma nth_delay_shift:
  "nth_delay d maxD f (Suc k) = nth_delay (min (d * f) maxD) maxD f k"
  by (induction k) simp_all

lemma honoured_timeout: "honoured d \<Longrightarrow> timeout_ms d = \<lfloor>d\<rfloor>"
  by (simp add: honoured_def timeout_ms_def)

lemma honoured_sleep: "honoured d \<Longrightarrow> sleep d w = w\<lparr>now := now w + \<lfloor>d\<rfloor>\<rparr>"
  by (simp add: sleep_def honoured_timeout)

lemma world_before_shift:
  "world_before operation d maxD f (Suc k) w =
     world_before operation (min (d * f) maxD) maxD f k
       ((snd (operation w))\<lparr>now := now (snd (operation w)) + \<lfloor>d\<rfloor>\<rparr>)"
proof (induction k)
  case 0
  show ?case by (simp add: Let_def)
next
  case (Suc k)
  have "world_before operation d maxD f (Suc (Suc k)) w =
          (let w1 = snd (operation (world_before operation d maxD f (Suc k) w))
           in w1\<lparr>now := now w1 + \<lfloor>nth_delay d maxD f (Suc k)\<rfloor>\<rparr>)"
    by simp
  also have "\<dots> =
          (let w1 = snd (operation (world_before operation (min (d * f) maxD) maxD f k
                 ((snd (operation w))\<lparr>now := now (snd (operation w)) + \<lfloor>d\<rfloor>\<rparr>)))
           in w1\<lparr>now := now w1 + \<lfloor>nth_delay (min (d * f) maxD) maxD f k\<rfloor>\<rparr>)"
    by (simp only: Suc.IH nth_delay_shift)
  finally show ?case by simp
qed

lemma calls_and_waits_0: "calls_and_waits d maxD f 0 = [Called]"
  by (simp add: calls_and_waits_def)

lemma calls_and_waits_Suc:
  "calls_and_waits d maxD f (Suc n) =
     Called # Slept d # calls_and_waits (min (d * f) maxD) maxD f n"
proof -
  have "[0..<Suc n] = 0 # map Suc [0..<n]"
    by (simp add: upt_conv_Cons map_Suc_upt del: upt_Suc)
  then have "concat (map (\<lambda>k. [Called, Slept (nth_delay d maxD f k)]) [0..<Suc n]) =
      Called # Slept d # concat (map (\<lambda>k. [Called, Slept (nth_delay d maxD f (Suc k))]) [0..<n])"
    by (simp add: comp_def del: upt_Suc nth_delay.simps(2))
  then show ?thesis
    by (simp add: calls_and_waits_def nth_delay_shift del: upt_Suc nth_delay.simps(2))
qed

lemma calls_calls_and_waits: "calls (calls_and_waits d maxD f n) = Suc n"
  by (induction n arbitrary: d) (simp_all add: calls_and_waits_0 calls_and_waits_Suc)

lemma waits_calls_and_waits: "waits (calls_and_waits d maxD f n) = map (nth_delay d maxD f) [0..<n]"
proof (induction n arbitrary: d)
  case 0
  show ?case by (simp add: calls_and_waits_0)
next
  case (Suc n)
  have "map (nth_delay d maxD f) [0..<Suc n] =
          d # map (nth_delay (min (d * f) maxD) maxD f) [0..<n]"
  proof -
    have "[0..<Suc n] = 0 # map Suc [0..<n]"
      by (simp add: upt_conv_Cons map_Suc_upt del: upt_Suc)
    then show ?thesis
      by (simp add: comp_def nth_delay_shift del: upt_Suc nth_delay.simps(2))
  qed
  with Suc show ?case by (simp add: calls_and_waits_Suc)
qed

lemma retry_loop_past:
  "maxA < of_int a \<Longrightarrow> retry_loop operation maxA maxD f a d le w = (Inl le, [], w)"
  by (simp add: retry_loop.simps)

lemma retry_loop_shape:
  fixes M :: int
  shows "a \<le> M \<Longrightarrow> (\<forall>k. int k < M - a \<longrightarrow> honoured (nth_delay d maxD f k)) \<Longrightarrow>
   \<exists>n. int n \<le> M - a \<and>
       (\<forall>j<n. isl (fst (operation (world_before operation d maxD f j w)))) \<and>
       (case retry_loop operation (of_int M) maxD f a d le w of
          (r, evs, w') \<Rightarrow>
            evs = calls_and_waits d maxD f n \<and>
            w' = snd (operation (world_before operation d maxD f n w)) \<and>
            (case fst (operation (world_before operation d maxD f n w)) of
               Inr v \<Rightarrow> r = Inr v
             | Inl x \<Rightarrow> int n = M - a \<and> r = Inl (Some (as_Error x))))"
proof (induction "nat (M - a)" arbitrary: a d le w)
  case 0
  then have a: "a = M" by simp
  obtain res w1 where op: "operation w = (res, w1)" by (cases "operation w")
  show ?case
  proof (cases res)
    case (Inl x)
    with op a show ?thesis
      by (intro exI[of _ 0])
         (simp add: retry_loop.simps [of operation "of_int M" maxD f M] retry_loop_past calls_and_waits_0)
  next
    case (Inr v)
    with op a show ?thesis
      by (intro exI[of _ 0])
         (simp add: retry_loop.simps [of operation "of_int M" maxD f M] calls_and_waits_0)
  qed
next
  case (Suc k)
  then have lt: "a < M" by simp
  obtain res w1 where op: "operation w = (res, w1)" by (cases "operation w")
  show ?case
  proof (cases res)
    case (Inr v)
    with op lt show ?thesis
      by (intro exI[of _ 0])
         (simp add: retry_loop.simps [of operation "of_int M" maxD f a] calls_and_waits_0)
  next
    case (Inl x)
    let ?d = "min (d * f) maxD" and ?w = "w1\<lparr>now := now w1 + \<lfloor>d\<rfloor>\<rparr>" and ?le = "Some (as_Error x)"
    from Suc have k: "k = nat (M - (a + 1))" and le: "a + 1 \<le> M" by simp_all
    from Suc.prems(2) lt have hd: "honoured d"
      by (auto dest: spec [of _ 0])
    have later: "\<forall>k. int k < M - (a + 1) \<longrightarrow> honoured (nth_delay ?d maxD f k)"
    proof (intro allI impI)
      fix j assume "int j < M - (a + 1)"
      then have "int (Suc j) < M - a" by simp
      with Suc.prems(2) have "honoured (nth_delay d maxD f (Suc j))" by blast
      then show "honoured (nth_delay ?d maxD f j)" by (simp only: nth_delay_shift)
    qed
    have "\<exists>n. int n \<le> M - (a + 1) \<and>
       (\<forall>j<n. isl (fst (operation (world_before operation ?d maxD f j ?w)))) \<and>
       (case retry_loop operation (of_int M) maxD f (a + 1) ?d ?le ?w of
          (r, evs, w') \<Rightarrow>
            evs = calls_and_waits ?d maxD f n \<and>
            w' = snd (operation (world_before operation ?d maxD f n ?w)) \<and>
            (case fst (operation (world_before operation ?d maxD f n ?w)) of
               Inr v \<Rightarrow> r = Inr v
             | Inl x \<Rightarrow> int n = M - (a + 1) \<and> r = Inl (Some (as_Error x))))"
      by (rule Suc.hyps(1) [OF k le later])
    then obtain n where n: "int n \<le> M - (a + 1)"
      and fails: "\<forall>j<n. isl (fst (operation (world_before operation ?d maxD f j ?w)))"
      and rest: "case retry_loop operation (of_int M) maxD f (a + 1) ?d ?le ?w of
          (r, evs, w') \<Rightarrow>
            evs = calls_and_waits ?d maxD f n \<and>
            w' = snd (operation (world_before operation ?d maxD f n ?w)) \<and>
            (case fst (operation (world_before operation ?d maxD f n ?w)) of
               Inr v \<Rightarrow> r = Inr v
             | Inl x \<Rightarrow> int n = M - (a + 1) \<and> r = Inl (Some (as_Error x)))"
      by (elim exE conjE)
    have shift: "\<And>j. world_before operation d maxD f (Suc j) w = world_before operation ?d maxD f j ?w"
      using op by (simp only: world_before_shift) simp
    have unfold: "retry_loop operation (of_int M) maxD f a d le w =
        (case retry_loop operation (of_int M) maxD f (a + 1) ?d ?le ?w of
           (r, evs, w2) \<Rightarrow> (r, Called # Slept d # evs, w2))"
      using op Inl lt hd
      by (simp add: retry_loop.simps [of operation "of_int M" maxD f a] honoured_sleep)
    have all: "\<forall>j<Suc n. isl (fst (operation (world_before operation d maxD f j w)))"
    proof (intro allI impI)
      fix j assume "j < Suc n"
      show "isl (fst (operation (world_before operation d maxD f j w)))"
      proof (cases j)
        case 0
        with op Inl show ?thesis by simp
      next
        case (Suc i)
        with \<open>j < Suc n\<close> fails shift show ?thesis by simp
      qed
    qed
    show ?thesis
    proof (intro exI[of _ "Suc n"] conjI)
      show "int (Suc n) \<le> M - a" using n by simp
      show "\<forall>j<Suc n. isl (fst (operation (world_before operation d maxD f j w)))" by (rule all)
      show "case retry_loop operation (of_int M) maxD f a d le w of
          (r, evs, w') \<Rightarrow>
            evs = calls_and_waits d maxD f (Suc n) \<and>
            w' = snd (operation (world_before operation d maxD f (Suc n) w)) \<and>
            (case fst (operation (world_before operation d maxD f (Suc n) w)) of
               Inr v \<Rightarrow> r = Inr v
             | Inl x \<Rightarrow> int (Suc n) = M - a \<and> r = Inl (Some (as_Error x)))"
        using rest n unfolding unfold shift calls_and_waits_Suc
        by (auto split: prod.splits sum.splits)
    qed
  qed
qed

lemma retry_loop_returns:
  "fst (retry_loop operation maxA maxD f a d le w) = Inr v \<Longrightarrow> \<exists>w0. fst (operation w0) = Inr v"
proof (induction operation maxA maxD f a d le w rule: retry_loop.induct)
  case (1 operation maxA maxD factor attempt delayMs lastError w)
  show ?case
  proof (cases "of_int attempt \<le> maxA")
    case False
    with "1.prems" show ?thesis
      by (simp add: retry_loop.simps [of operation maxA maxD factor attempt])
  next
    case True
    obtain res w1 where op: "operation w = (res, w1)" by (cases "operation w")
    show ?thesis
    proof (cases res)
      case (Inr u)
      with True op "1.prems" have "u = v"
        by (simp add: retry_loop.simps [of operation maxA maxD factor attempt])
      with op Inr have "fst (operation w) = Inr v" by simp
      then show ?thesis ..
    next
      case (Inl x)
      show ?thesis
      proof (cases "of_int attempt < maxA")
        case lt: True
        with True op Inl "1.prems"
        have "fst (retry_loop operation maxA maxD factor (attempt + 1)
                 (min (delayMs * factor) maxD) (Some (as_Error x)) (sleep delayMs w1)) = Inr v"
          by (simp add: retry_loop.simps [of operation maxA maxD factor attempt] case_prod_beta)
        then show ?thesis
          using "1.IH"(1) [OF True op [symmetric] Inl lt] by simp
      next
        case ge: False
        with True op Inl "1.prems"
        have "fst (retry_loop operation maxA maxD factor (attempt + 1) delayMs
                 (Some (as_Error x)) w1) = Inr v"
          by (simp add: retry_loop.simps [of operation maxA maxD factor attempt] case_prod_beta)
        then show ?thesis
          using "1.IH"(2) [OF True op [symmetric] Inl ge] by simp
      qed
    qed
  qed
qed

text \<open>
  Claim C3 asks of every policy with \<open>maxAttempts\<close> at least 1 that no wait follows
  the last failure and that each suspension lasts the current delay. With
  \<open>maxAttempts\<close> two and a half the second attempt is the last, and \<open>2 < 2.5\<close> still
  holds: the executor sets the timer of 10000 after it, and then throws. With an
  initial delay of 3000000000 and a limit of 4000000000 the timers are set with these
  delays, which \<open>setTimeout\<close> replaces by 1: over the run that succeeds at its third
  attempt the clock has advanced by the three calls, of 20 each, and by 2.
\<close>

theorem retry_executor_counterexample:
  "1 \<le> attempts_of fractional_policy \<and>
   fst (snd (retryWithBackoff (as_operation getOidcToken) fractional_policy denied_world))
     = [Called, Slept 5000, Called, Slept 10000] \<and>
   1 \<le> attempts_of long_policy \<and>
   fst (snd (retryWithBackoff (as_operation getOidcToken) long_policy flaky_world))
     = [Called, Slept 3000000000, Called, Slept 4000000000, Called] \<and>
   now (snd (snd (retryWithBackoff (as_operation getOidcToken) long_policy flaky_world)))
     = now flaky_world + 20 + 1 + 20 + 1 + 20"
  by code_simp

text \<open>
  Claim C3, amended. Let \<open>maxAttempts\<close> be a whole number \<open>m\<close>, at least 1, and let the
  initial delay \<open>d\<close>, the limit \<open>maxD\<close> and the factor \<open>f\<close> be the fields of the options,
  an absent field standing for 3, 5000, 20000 and 2; let every delay that can be waited,
  which is \<open>d\<close> and then each time \<open>min (delay * f) maxD\<close>, be a whole number of
  milliseconds from 1 to \<open>2^31 - 1\<close>. Then the operation is called \<open>n + 1\<close> times for
  some \<open>n\<close> below \<open>m\<close>. The first \<open>n\<close> calls fail, each is followed by the timer of
  its turn and then by the next call, and after the last call no timer is set. Call
  \<open>k + 1\<close> sees the world that call \<open>k\<close> left with the clock advanced by delay
  \<open>k\<close>. When the last call succeeds, its result is returned at once, in the world it
  left. When it fails it is call number \<open>m\<close>, and what is thrown is the error object
  it threw, or \<open>new Error(String(value))\<close> for a value that is no error object.
\<close>

theorem retry_executor:
  fixes m :: int
  assumes "1 \<le> m"
    and "maxAttempts options = Some (of_int m) \<or> maxAttempts options = None \<and> m = 3"
    and "initialDelayMs options = Some d \<or> initialDelayMs options = None \<and> d = 5000"
    and "maxDelayMs options = Some maxD \<or> maxDelayMs options = None \<and> maxD = 20000"
    and "backoffFactor options = Some f \<or> backoffFactor options = None \<and> f = 2"
    and "\<forall>k. int k < m - 1 \<longrightarrow> honoured (nth_delay d maxD f k)"
  shows "\<exists>n<nat m.
      (\<forall>j<n. isl (fst (operation (world_before operation d maxD f j w)))) \<and>
      (case retryWithBackoff operation options w of
         (r, evs, w') \<Rightarrow>
           evs = calls_and_waits d maxD f n \<and>
           calls evs = Suc n \<and>
           waits evs = map (nth_delay d maxD f) [0..<n] \<and>
           w' = snd (operation (world_before operation d maxD f n w)) \<and>
           (\<forall>v. fst (operation (world_before operation d maxD f n w)) = Inr v \<longrightarrow> r = Inr v) \<and>
           (\<forall>e. fst (operation (world_before operation d maxD f n w)) = Inl (ErrorObj e) \<longrightarrow>
                Suc n = nat m \<and> r = Inl (Some e)) \<and>
           (\<forall>s. fst (operation (world_before operation d maxD f n w)) = Inl (NonError s) \<longrightarrow>
                Suc n = nat m \<and> r = Inl (Some (JsError ''Error'' s None))))"
proof -
  from assms(2) have m: "attempts_of options = of_int m"
    by (auto simp: attempts_of_def or_default_def)
  from assms(3) have d: "initial_delay_of options = d"
    by (auto simp: initial_delay_of_def or_default_def)
  from assms(4) have D: "max_delay_of options = maxD"
    by (auto simp: max_delay_of_def or_default_def)
  from assms(5) have f: "factor_of options = f"
    by (auto simp: factor_of_def or_default_def)
  have run: "retryWithBackoff operation options w = retry_loop operation (of_int m) maxD f 1 d None w"
    by (simp add: retryWithBackoff_def m d D f)
  from retry_loop_shape [OF assms(1) assms(6), of operation w None]
  obtain n where n: "int n \<le> m - 1"
    and fails: "\<forall>j<n. isl (fst (operation (world_before operation d maxD f j w)))"
    and rest: "case retry_loop operation (of_int m) maxD f 1 d None w of
          (r, evs, w') \<Rightarrow>
            evs = calls_and_waits d maxD f n \<and>
            w' = snd (operation (world_before operation d maxD f n w)) \<and>
            (case fst (operation (world_before operation d maxD f n w)) of
               Inr v \<Rightarrow> r = Inr v
             | Inl x \<Rightarrow> int n = m - 1 \<and> r = Inl (Some (as_Error x)))"
    by (elim exE conjE)
  have lt: "n < nat m" using n assms(1) by linarith
  have last: "int n = m - 1 \<Longrightarrow> Suc n = nat m" by linarith
  have main: "case retryWithBackoff operation options w of
         (r, evs, w') \<Rightarrow>
           evs = calls_and_waits d maxD f n \<and>
           calls evs = Suc n \<and>
           waits evs = map (nth_delay d maxD f) [0..<n] \<and>
           w' = snd (operation (world_before operation d maxD f n w)) \<and>
           (\<forall>v. fst (operation (world_before operation d maxD f n w)) = Inr v \<longrightarrow> r = Inr v) \<and>
           (\<forall>e. fst (operation (world_before operation d maxD f n w)) = Inl (ErrorObj e) \<longrightarrow>
                Suc n = nat m \<and> r = Inl (Some e)) \<and>
           (\<forall>s. fst (operation (world_before operation d maxD f n w)) = Inl (NonError s) \<longrightarrow>
                Suc n = nat m \<and> r = Inl (Some (JsError ''Error'' s None)))"
    using rest last unfolding run
    by (auto simp: calls_calls_and_waits waits_calls_and_waits new_Error_def
        split: prod.splits sum.splits)
  show ?thesis
    using lt fails main by (intro exI[of _ n]) simp
qed

lemma flaky_run:
  "fst (retryWithBackoff (as_operation getOidcToken) no_options flaky_world) = Inr ''mock-oidc-token''"
  "calls (fst (snd (retryWithBackoff (as_operation getOidcToken) no_options flaky_world))) = 3"
  by code_simp+

theorem retry_executor_witness:
  "fst (retryWithBackoff failing_operation short_policy mock_world)
     = Inl (Some (JsError ''Error'' ''xxx'' None)) \<and>
   calls (fst (snd (retryWithBackoff failing_operation short_policy mock_world))) = 3 \<and>
   waits (fst (snd (retryWithBackoff failing_operation short_policy mock_world))) = [100, 150] \<and>
   now (snd (snd (retryWithBackoff failing_operation short_policy mock_world)))
     = now mock_world + 100 + 150 \<and>
   fst (retryWithBackoff (as_operation getOidcToken) no_options flaky_world) = Inr ''mock-oidc-token'' \<and>
   waits (fst (snd (retryWithBackoff (as_operation getOidcToken) no_options flaky_world)))
     = [5000, 10000]"
proof -
  have three: "(1::int) \<le> 3" by simp
  have two: "k = 0 \<or> k = 1" if "int k < 3 - 1" for k using that by auto
  \<comment> \<open>the run that uses up its attempts\<close>
  let ?run = "retryWithBackoff failing_operation short_policy mock_world"
  let ?at = "\<lambda>k. world_before failing_operation 100 150 2 k mock_world"
  have fields:
    "maxAttempts short_policy = Some (of_int 3) \<or> maxAttempts short_policy = None \<and> (3::int) = 3"
    "initialDelayMs short_policy = Some 100 \<or> initialDelayMs short_policy = None \<and> (100::rat) = 5000"
    "maxDelayMs short_policy = Some 150 \<or> maxDelayMs short_policy = None \<and> (150::rat) = 20000"
    "backoffFactor short_policy = Some 2 \<or> backoffFactor short_policy = None \<and> (2::rat) = 2"
    by (simp_all add: short_policy_def)
  have delays: "\<forall>k. int k < 3 - 1 \<longrightarrow> honoured (nth_delay 100 150 2 k)"
  proof (intro allI impI)
    fix k assume "int k < 3 - 1"
    then have "k = 0 \<or> k = 1" by (rule two)
    then show "honoured (nth_delay 100 150 2 k)" by (auto simp: honoured_def)
  qed
  from retry_executor [OF three fields delays, of failing_operation mock_world]
  obtain n where n: "n < nat 3"
    and evs: "fst (snd ?run) = calls_and_waits 100 150 2 n"
    and cs: "calls (fst (snd ?run)) = Suc n"
    and ws: "waits (fst (snd ?run)) = map (nth_delay 100 150 2) [0..<n]"
    and w': "snd (snd ?run) = snd (failing_operation (?at n))"
    and err: "\<forall>e. fst (failing_operation (?at n)) = Inl (ErrorObj e) \<longrightarrow>
                Suc n = nat 3 \<and> fst ?run = Inl (Some e)"
    by (auto simp: case_prod_beta)
  have "fst (failing_operation (?at n)) =
      Inl (ErrorObj (JsError ''Error'' (replicate (Suc (idp_calls (?at n))) CHR ''x'') None))"
    by (simp add: failing_operation_def)
  with err have last: "Suc n = nat 3"
    and thrown: "fst ?run = Inl (Some (JsError ''Error'' (replicate (Suc (idp_calls (?at n))) CHR ''x'') None))"
    by blast+
  from last have n2: "n = Suc (Suc 0)" by simp
  have at2: "idp_calls (?at (Suc (Suc 0))) = 2" "now (?at (Suc (Suc 0))) = now mock_world + 100 + 150"
    by (simp_all add: failing_operation_def mock_world_def Let_def)
  have b1: "fst ?run = Inl (Some (JsError ''Error'' ''xxx'' None))"
    using thrown unfolding n2 at2 by (simp add: numeral_3_eq_3)
  have b2: "calls (fst (snd ?run)) = 3" using cs n2 by simp
  have b3: "waits (fst (snd ?run)) = [100, 150]"
    using ws unfolding n2 by (simp add: upt_conv_Cons)
  have b4: "now (snd (snd ?run)) = now mock_world + 100 + 150"
    unfolding w' n2 using at2(2) by (simp add: failing_operation_def)
  \<comment> \<open>the run that succeeds at its third attempt, under the default policy\<close>
  let ?ok = "retryWithBackoff (as_operation getOidcToken) no_options flaky_world"
  have defaults:
    "maxAttempts no_options = Some (of_int 3) \<or> maxAttempts no_options = None \<and> (3::int) = 3"
    "initialDelayMs no_options = Some 5000 \<or> initialDelayMs no_options = None \<and> (5000::rat) = 5000"
    "maxDelayMs no_options = Some 20000 \<or> maxDelayMs no_options = None \<and> (20000::rat) = 20000"
    "backoffFactor no_options = Some 2 \<or> backoffFactor no_options = None \<and> (2::rat) = 2"
    by (simp_all add: no_options_def)
  have default_delays: "\<forall>k. int k < 3 - 1 \<longrightarrow> honoured (nth_delay 5000 20000 2 k)"
  proof (intro allI impI)
    fix k assume "int k < 3 - 1"
    then have "k = 0 \<or> k = 1" by (rule two)
    then show "honoured (nth_delay 5000 20000 2 k)" by (auto simp: honoured_def)
  qed
  from retry_executor [OF three defaults default_delays, of "as_operation getOidcToken" flaky_world]
  obtain i where cs': "calls (fst (snd ?ok)) = Suc i"
    and ws': "waits (fst (snd ?ok)) = map (nth_delay 5000 20000 2) [0..<i]"
    by (auto simp: case_prod_beta)
  from cs' flaky_run(2) have "i = Suc (Suc 0)" by simp
  with ws' have a2: "waits (fst (snd ?ok)) = [5000, 10000]"
    by (simp add: upt_conv_Cons)
  from b1 b2 b3 b4 flaky_run(1) a2 show ?thesis by blast
qed

text \<open>
  Claim C10. With \<open>maxAttempts\<close> at most 0 the loop body is not entered: the operation
  is not called, no timer is set, the world is as it was, and what is thrown is
  \<open>lastError\<close> as it was initialised, \<open>undefined\<close>, not an error object.
\<close>

theorem retry_without_attempts:
  "attempts_of options \<le> 0 \<Longrightarrow> retryWithBackoff operation options w = (Inl None, [], w)"
  by (simp add: retryWithBackoff_def retry_loop.simps)

theorem retry_without_attempts_witness:
  "attempts_of (no_options\<lparr>maxAttempts := Some 0\<rparr>) \<le> 0 \<and>
   retryWithBackoff (as_operation getOidcToken) (no_options\<lparr>maxAttempts := Some 0\<rparr>) mock_world
     = (Inl None, [], mock_world) \<and>
   idp_calls (snd (snd (retryWithBackoff (as_operation getOidcToken)
      (no_options\<lparr>maxAttempts := Some 0\<rparr>) mock_world))) = 0"
proof -
  have h: "attempts_of (no_options\<lparr>maxAttempts := Some 0\<rparr>) \<le> 0"
    by (simp add: attempts_of_def or_default_def no_options_def)
  show ?thesis
    using h retry_without_attempts [OF h, of "as_operation getOidcToken" mock_world]
    by (simp add: mock_world_def)
qed

subsection \<open>What a refresh stores\<close>

lemma exchange_nonempty: "fst (exchangeForAppToken oidcToken w) = Inr t \<Longrightarrow> t \<noteq> []"
  by (auto simp: exchangeForAppToken_def Let_def
      split: fetch_result.splits body_result.splits option.splits if_splits)

lemma as_operation_Inr: "fst (as_operation g w) = Inr v \<Longrightarrow> fst (g w) = Inr v"
  by (auto simp: as_operation_def split: prod.splits sum.splits)

lemma doRefresh_network_cases:
  "(\<exists>e w1. doRefresh_network m w = (Inl e, m, w1)) \<or>
   (\<exists>t w1. doRefresh_network m w =
      (Inr t, m\<lparr>token := Some t, tokenExpiry := Some (now w1 + TOKEN_LIFETIME_MS)\<rparr>, w1))"
  by (simp add: doRefresh_network_def split: prod.splits sum.splits)

lemma doRefresh_network_nonempty:
  assumes "fst (doRefresh_network m w) = Inr t"
  shows "t \<noteq> []"
proof -
  obtain r1 evs1 w1 where first: "retryWithBackoff (as_operation getOidcToken) no_options w = (r1, evs1, w1)"
    by (cases "retryWithBackoff (as_operation getOidcToken) no_options w") auto
  show ?thesis
  proof (cases r1)
    case (Inl e)
    with first assms show ?thesis by (simp add: doRefresh_network_def)
  next
    case (Inr oidcToken)
    obtain r2 evs2 w2 where second:
      "retryWithBackoff (as_operation (exchangeForAppToken oidcToken)) no_options w1 = (r2, evs2, w2)"
      by (cases "retryWithBackoff (as_operation (exchangeForAppToken oidcToken)) no_options w1") auto
    with first Inr assms have "r2 = Inr t"
      by (cases r2) (simp_all add: doRefresh_network_def)
    with second have
      "fst (retry_loop (as_operation (exchangeForAppToken oidcToken)) (attempts_of no_options)
         (max_delay_of no_options) (factor_of no_options) 1 (initial_delay_of no_options) None w1) = Inr t"
      by (simp add: retryWithBackoff_def)
    then obtain w0 where "fst (as_operation (exchangeForAppToken oidcToken) w0) = Inr t"
      by (blast dest: retry_loop_returns)
    then show ?thesis
      by (blast dest: as_operation_Inr exchange_nonempty)
  qed
qed

lemma provided_nonempty: "provided w = Some t \<Longrightarrow> t \<noteq> []"
  by (auto simp: provided_def split: option.splits if_splits)

lemma doRefresh_nonempty:
  assumes "fst (doRefresh m w) = Inr t"
  shows "t \<noteq> []"
proof (cases "provided w")
  case None
  with assms show ?thesis by (simp add: doRefresh_def doRefresh_network_nonempty)
next
  case (Some p)
  with assms show ?thesis by (auto simp: doRefresh_def dest: provided_nonempty)
qed

lemma cache_ok_new: "cache_ok new_manager"
  by (simp add: cache_ok_def new_manager_def)

lemma cache_ok_reset: "cache_ok (resetInstance m)"
  by (simp add: cache_ok_def resetInstance_def)

lemma cache_ok_doRefresh_network:
  assumes "cache_ok m"
  shows "cache_ok (fst (snd (doRefresh_network m w)))"
proof -
  from doRefresh_network_cases [of m w] show ?thesis
  proof (elim disjE exE)
    fix e w1 assume "doRefresh_network m w = (Inl e, m, w1)"
    with assms show ?thesis by simp
  next
    fix t w1
    assume r: "doRefresh_network m w =
      (Inr t, m\<lparr>token := Some t, tokenExpiry := Some (now w1 + TOKEN_LIFETIME_MS)\<rparr>, w1)"
    then have "t \<noteq> []" using doRefresh_network_nonempty [of m w t] by simp
    with r show ?thesis by (simp add: cache_ok_def)
  qed
qed

lemma cache_ok_doRefresh:
  assumes "cache_ok m"
  shows "cache_ok (fst (snd (doRefresh m w)))"
proof (cases "provided w")
  case None
  with assms show ?thesis by (simp add: doRefresh_def cache_ok_doRefresh_network)
next
  case (Some p)
  then show ?thesis by (auto simp: doRefresh_def cache_ok_def dest: provided_nonempty)
qed

lemma cache_ok_refreshPromise [simp]: "cache_ok (m\<lparr>refreshPromise := x\<rparr>) = cache_ok m"
  by (simp add: cache_ok_def)

lemma cache_ok_refreshToken_call:
  assumes "cache_ok (mgr rt)"
  shows "cache_ok (mgr (snd (refreshToken_call rt)))"
  using assms cache_ok_doRefresh [of "mgr rt" "env rt"]
  by (auto simp: refreshToken_call_def Let_def split: option.splits prod.splits)

lemma cache_ok_getToken_call:
  "cache_ok (mgr rt) \<Longrightarrow> cache_ok (mgr (snd (getToken_call rt)))"
  by (simp add: getToken_call_def cache_ok_refreshToken_call)

lemma cache_ok_settle:
  assumes "cache_ok (mgr rt)"
  shows "cache_ok (mgr (snd (settle p rt)))"
  using assms cache_ok_doRefresh_network [of "mgr rt" "env rt"]
  by (auto simp: settle_def split: option.splits prod.splits)

lemma cache_ok_owner_resume:
  "cache_ok (mgr rt) \<Longrightarrow> cache_ok (mgr (owner_resume p rt))"
  by (auto simp: owner_resume_def split: option.splits)

subsection \<open>doRefresh\<close>

text \<open>
  Claim C4. With the override set and not empty, \<open>doRefresh\<close> returns it as it is,
  stores it with an expiry one year after the present, and leaves the world as it
  was: neither the identity provider nor the endpoint is called. A \<open>getToken()\<close>
  that has no valid token and finds no refresh in flight runs that refresh and returns
  the override.
\<close>

theorem override_precedence:
  assumes "override w = Some t" and "t \<noteq> []"
  shows "doRefresh m w =
           (Inr t, m\<lparr>token := Some t, tokenExpiry := Some (now w + 365 * 24 * 60 * 60 * 1000)\<rparr>, w) \<and>
         (env rt = w \<and> refreshPromise (mgr rt) = None \<and> \<not> isTokenValid (mgr rt) (now w) \<longrightarrow>
            fst (getToken rt) = Inr t \<and>
            env (snd (getToken rt)) = w \<and>
            mgr (snd (getToken rt)) =
              (mgr rt)\<lparr>token := Some t, tokenExpiry := Some (now w + 365 * 24 * 60 * 60 * 1000)\<rparr>)"
proof -
  from assms have p: "provided w = Some t" by (simp add: provided_def)
  then have d: "doRefresh m w =
           (Inr t, m\<lparr>token := Some t, tokenExpiry := Some (now w + 365 * 24 * 60 * 60 * 1000)\<rparr>, w)"
    for m by (simp add: doRefresh_def)
  show ?thesis
    using p d
    by (auto simp: getToken_def getToken_call_def refreshToken_call_def Let_def settle_def
        owner_resume_def)
qed

theorem override_precedence_witness:
  "override override_world = Some ''override-token'' \<and> ''override-token'' \<noteq> [] \<and>
   fst (doRefresh new_manager override_world) = Inr ''override-token'' \<and>
   tokenExpiry (fst (snd (doRefresh new_manager override_world))) = Some (1000 + 31536000000) \<and>
   fst (getToken (runtime_of new_manager override_world)) = Inr ''override-token'' \<and>
   idp_calls (env (snd (getToken (runtime_of new_manager override_world)))) = 0 \<and>
   fetch_calls (env (snd (getToken (runtime_of new_manager override_world)))) = 0"
proof -
  have h1: "override override_world = Some ''override-token''"
    by (simp add: override_world_def)
  have h2: "''override-token'' \<noteq> []" by simp
  have pre: "env (runtime_of new_manager override_world) = override_world \<and>
    refreshPromise (mgr (runtime_of new_manager override_world)) = None \<and>
    \<not> isTokenValid (mgr (runtime_of new_manager override_world)) (now override_world)"
    by (simp add: runtime_of_def new_manager_def isTokenValid_def)
  from override_precedence [OF h1 h2, of new_manager "runtime_of new_manager override_world"] pre
  show ?thesis
    by (simp add: override_world_def mock_world_def)
qed

text \<open>
  Claim C7. When \<open>doRefresh\<close> succeeds the token and the expiry are both new: the
  token is the one returned, the expiry is the time of storing plus the lifetime (one
  year for an override). When it fails the manager is the one it was, both fields
  included. \<open>refreshPromise\<close> is not touched by \<open>doRefresh\<close>.
\<close>

theorem token_record_atomic:
  "(\<forall>t. fst (doRefresh m w) = Inr t \<longrightarrow>
      token (fst (snd (doRefresh m w))) = Some t \<and>
      tokenExpiry (fst (snd (doRefresh m w))) =
        Some (now (snd (snd (doRefresh m w))) +
              (if provided w = None then TOKEN_LIFETIME_MS else 365 * 24 * 60 * 60 * 1000))) \<and>
   (isl (fst (doRefresh m w)) \<longrightarrow> fst (snd (doRefresh m w)) = m) \<and>
   refreshPromise (fst (snd (doRefresh m w))) = refreshPromise m"
proof (cases "provided w")
  case (Some p)
  then show ?thesis by (simp add: doRefresh_def)
next
  case None
  with doRefresh_network_cases [of m w] show ?thesis
    by (auto simp: doRefresh_def)
qed

lemma denied_refresh:
  "isl (fst (doRefresh stale_manager denied_world))"
  "idp_calls (snd (snd (doRefresh stale_manager denied_world))) = 3"
  by code_simp+

lemma mock_refresh:
  "fst (doRefresh stale_manager mock_world) = Inr ''mock-app-token''"
  "now (snd (snd (doRefresh stale_manager mock_world))) = 1050"
  "provided mock_world = None"
  by code_simp+

theorem token_record_atomic_witness:
  "fst (doRefresh stale_manager mock_world) = Inr ''mock-app-token'' \<and>
   token (fst (snd (doRefresh stale_manager mock_world))) = Some ''mock-app-token'' \<and>
   tokenExpiry (fst (snd (doRefresh stale_manager mock_world))) = Some (1050 + 3300000) \<and>
   isl (fst (doRefresh stale_manager denied_world)) \<and>
   fst (snd (doRefresh stale_manager denied_world)) = stale_manager"
  using token_record_atomic [of stale_manager mock_world]
    token_record_atomic [of stale_manager denied_world]
  by (simp add: mock_refresh denied_refresh TOKEN_LIFETIME_MS_def)

subsection \<open>getToken and the cache\<close>

lemma getToken_valid:
  "isTokenValid (mgr rt) (now (env rt)) \<Longrightarrow> getToken rt = (Inr (the (token (mgr rt))), rt)"
  by (simp add: getToken_def getToken_call_def)

lemma getToken_invalid:
  "\<not> isTokenValid (mgr rt) (now (env rt)) \<Longrightarrow> getToken rt = refreshToken rt"
  by (simp add: getToken_def getToken_call_def refreshToken_def)

text \<open>
  Claim C2. On a manager that satisfies the invariant of the cache, \<open>isTokenValid\<close> at
  time \<open>t\<close> says that the token is not null and \<open>t\<close> is strictly less than the
  expiry minus the buffer of five minutes. When it holds, \<open>getToken()\<close> returns the
  cached token and the runtime is the one it was: manager, world with its two call
  counters, and promises. When it does not hold, \<open>getToken()\<close> is \<open>refreshToken()\<close>.
  A token stored at time \<open>T\<close> with the lifetime of 55 minutes is valid at exactly the
  times before \<open>T\<close> plus 50 minutes.
\<close>

theorem validity_and_cache_hit:
  "(cache_ok m \<longrightarrow>
      (isTokenValid m t \<longleftrightarrow>
         token m \<noteq> None \<and> (\<exists>e. tokenExpiry m = Some e \<and> t < e - 5 * 60 * 1000))) \<and>
   (isTokenValid (mgr rt) (now (env rt)) \<longrightarrow> getToken rt = (Inr (the (token (mgr rt))), rt)) \<and>
   (\<not> isTokenValid (mgr rt) (now (env rt)) \<longrightarrow> getToken rt = refreshToken rt) \<and>
   (cache_ok m \<and> token m \<noteq> None \<and> tokenExpiry m = Some (T + TOKEN_LIFETIME_MS) \<longrightarrow>
      (isTokenValid m t \<longleftrightarrow> t < T + 50 * 60 * 1000))"
proof (intro conjI impI)
  assume "cache_ok m"
  then show "isTokenValid m t \<longleftrightarrow>
         token m \<noteq> None \<and> (\<exists>e. tokenExpiry m = Some e \<and> t < e - 5 * 60 * 1000)"
    by (auto simp: cache_ok_def isTokenValid_def split: option.splits)
next
  assume "isTokenValid (mgr rt) (now (env rt))"
  then show "getToken rt = (Inr (the (token (mgr rt))), rt)" by (rule getToken_valid)
next
  assume "\<not> isTokenValid (mgr rt) (now (env rt))"
  then show "getToken rt = refreshToken rt" by (rule getToken_invalid)
next
  assume "cache_ok m \<and> token m \<noteq> None \<and> tokenExpiry m = Some (T + TOKEN_LIFETIME_MS)"
  then show "isTokenValid m t \<longleftrightarrow> t < T + 50 * 60 * 1000"
    by (auto simp: cache_ok_def isTokenValid_def TOKEN_LIFETIME_MS_def split: option.splits)
qed

theorem validity_and_cache_hit_witness:
  "cache_ok fresh_manager \<and>
   isTokenValid fresh_manager (1050 + 2999999) \<and>
   \<not> isTokenValid fresh_manager (1050 + 3000000) \<and>
   fst (getToken (runtime_of fresh_manager (mock_world\<lparr>now := 1050 + 2999999\<rparr>))) = Inr ''mock-app-token'' \<and>
   fetch_calls (env (snd (getToken (runtime_of fresh_manager (mock_world\<lparr>now := 1050 + 2999999\<rparr>))))) = 0 \<and>
   getToken (runtime_of fresh_manager (mock_world\<lparr>now := 1050 + 3000000\<rparr>)) =
     refreshToken (runtime_of fresh_manager (mock_world\<lparr>now := 1050 + 3000000\<rparr>))"
proof -
  let ?early = "runtime_of fresh_manager (mock_world\<lparr>now := 1050 + 2999999\<rparr>)"
  let ?late = "runtime_of fresh_manager (mock_world\<lparr>now := 1050 + 3000000\<rparr>)"
  have ok: "cache_ok fresh_manager" by (simp add: cache_ok_def fresh_manager_def)
  have stored: "cache_ok fresh_manager \<and> token fresh_manager \<noteq> None \<and>
      tokenExpiry fresh_manager = Some (1050 + TOKEN_LIFETIME_MS)"
    by (simp add: cache_ok_def fresh_manager_def)
  have at: "mgr ?early = fresh_manager" "now (env ?early) = 1050 + 2999999"
    "mgr ?late = fresh_manager" "now (env ?late) = 1050 + 3000000"
    by (simp_all add: runtime_of_def)
  note early = validity_and_cache_hit [of fresh_manager "1050 + 2999999" ?early 1050]
  note late = validity_and_cache_hit [of fresh_manager "1050 + 3000000" ?late 1050]
  from early stored have v: "isTokenValid fresh_manager (1050 + 2999999)"
    by (simp add: TOKEN_LIFETIME_MS_def)
  from late stored have nv: "\<not> isTokenValid fresh_manager (1050 + 3000000)"
    by (simp add: TOKEN_LIFETIME_MS_def)
  from early v at have hit: "getToken ?early = (Inr (the (token fresh_manager)), ?early)"
    by simp
  from late nv at have miss: "getToken ?late = refreshToken ?late"
    by simp
  have "fst (getToken ?early) = Inr ''mock-app-token''"
    unfolding hit by (simp add: fresh_manager_def)
  moreover have "fetch_calls (env (snd (getToken ?early))) = 0"
    unfolding hit by (simp add: runtime_of_def mock_world_def)
  ultimately show ?thesis using ok v nv miss by simp
qed



subsection \<open>resetInstance\<close>

text \<open>
  Claim C8 says that \<open>resetInstance\<close> leaves \<open>refreshPromise\<close> as it is. After a
  \<open>getToken()\<close> on a manager with a stale token in the mocked world a refresh is in
  flight: \<open>refreshPromise\<close> holds promise 0, which is pending. \<open>resetInstance\<close>
  then changes the field.
\<close>

theorem reset_in_flight_counterexample:
  "refreshPromise (mgr (snd (getToken_call (runtime_of stale_manager mock_world)))) = Some 0 \<and>
   settled (promises (snd (getToken_call (runtime_of stale_manager mock_world))) 0) = None \<and>
   refreshPromise (resetInstance (mgr (snd (getToken_call (runtime_of stale_manager mock_world)))))
     \<noteq> refreshPromise (mgr (snd (getToken_call (runtime_of stale_manager mock_world))))"
  by (simp add: getToken_call_def refreshToken_call_def runtime_of_def stale_manager_def
      mock_world_def isTokenValid_def provided_def resetInstance_def Let_def)

text \<open>
  Claim C8, amended. \<open>resetInstance\<close> sets the three fields to null: the cached
  token, the expiry and \<open>refreshPromise\<close>.
\<close>

theorem reset_clears_all:
  "resetInstance m = \<lparr>token = None, tokenExpiry = None, refreshPromise = None\<rparr>"
  by (simp add: resetInstance_def)

subsection \<open>exchangeForAppToken\<close>

text \<open>
  Claim C5 says that the failure on a non-success status carries the status code, and
  that the call fails on a non-success status or on a success without a token and in
  no other case. The failures on the statuses 500 and 503 are one and the same error
  object, whose \<open>status\<close> is absent and whose message is the generic one; and when
  \<open>fetch\<close> itself rejects there is no response at all, yet the call fails, with the
  error of \<open>fetch\<close>.
\<close>

theorem exchange_status_counterexample:
  "fst (exchangeForAppToken ''mock-oidc-token'' (error_world 500)) =
     Inl (JsError ''Error'' ''Unknown error'' None) \<and>
   fst (exchangeForAppToken ''mock-oidc-token'' (error_world 503)) =
     fst (exchangeForAppToken ''mock-oidc-token'' (error_world 500)) \<and>
   fst (exchangeForAppToken ''mock-oidc-token'' offline_world) =
     Inl (JsError ''TypeError'' ''fetch failed'' None)"
  by (simp add: exchangeForAppToken_def error_world_def error_response_def offline_world_def
      mock_world_def ok_def new_Error_def Let_def)

text \<open>
  Claim C5, amended. When \<open>fetch\<close> gives a response whose body is a JSON object, the
  call fails exactly when the status is no success or neither \<open>token\<close> nor
  \<open>app_token\<close> is filled. On a non-success status the error is a plain \<open>Error\<close>
  whose message is \<open>error.message\<close> of the body if present and \<open>Unknown error\<close>
  otherwise, and which carries no status. On a success with neither field filled the
  message is \<open>App token not found in response\<close>. On a success with a field filled
  the result is \<open>token\<close> if filled and \<open>app_token\<close> otherwise. When \<open>fetch\<close>
  rejects, or the body is no JSON, the call fails with that error. In every case one
  \<open>fetch\<close> has been made.
\<close>

theorem exchange_result:
  "(snd (endpoint w (fetch_calls w) (''Bearer '' @ oidcToken)) = Response resp \<and> body resp = Json j \<longrightarrow>
      (isl (fst (exchangeForAppToken oidcToken w)) \<longleftrightarrow>
         \<not> ok resp \<or> (\<not> filled (token_field j) \<and> \<not> filled (app_token_field j))) \<and>
      (\<not> ok resp \<longrightarrow>
         fst (exchangeForAppToken oidcToken w) =
           Inl (JsError ''Error''
                 (case error_message j of Some msg \<Rightarrow> msg | None \<Rightarrow> ''Unknown error'') None)) \<and>
      (ok resp \<and> \<not> filled (token_field j) \<and> \<not> filled (app_token_field j) \<longrightarrow>
         fst (exchangeForAppToken oidcToken w) =
           Inl (JsError ''Error'' ''App token not found in response'' None)) \<and>
      (ok resp \<and> filled (token_field j) \<longrightarrow>
         fst (exchangeForAppToken oidcToken w) = Inr (the (token_field j))) \<and>
      (ok resp \<and> \<not> filled (token_field j) \<and> filled (app_token_field j) \<longrightarrow>
         fst (exchangeForAppToken oidcToken w) = Inr (the (app_token_field j)))) \<and>
   (snd (endpoint w (fetch_calls w) (''Bearer '' @ oidcToken)) = NetworkError e \<longrightarrow>
      fst (exchangeForAppToken oidcToken w) = Inl e) \<and>
   (snd (endpoint w (fetch_calls w) (''Bearer '' @ oidcToken)) = Response resp \<and>
    body resp = InvalidJson e \<longrightarrow>
      fst (exchangeForAppToken oidcToken w) = Inl e) \<and>
   fetch_calls (snd (exchangeForAppToken oidcToken w)) = Suc (fetch_calls w)"
  by (auto simp: exchangeForAppToken_def Let_def filled_def new_Error_def
      split: option.splits fetch_result.splits body_result.splits)

theorem exchange_result_witness:
  "fst (exchangeForAppToken ''mock-oidc-token'' mock_world) = Inr ''mock-app-token'' \<and>
   fst (exchangeForAppToken ''mock-oidc-token'' (error_world 500)) =
     Inl (JsError ''Error'' ''Unknown error'' None) \<and>
   fst (exchangeForAppToken ''mock-oidc-token'' offline_world) =
     Inl (JsError ''TypeError'' ''fetch failed'' None) \<and>
   fetch_calls (snd (exchangeForAppToken ''mock-oidc-token'' mock_world)) = 1"
proof -
  let ?j = "\<lparr>error_message = None, token_field = Some ''mock-app-token'', app_token_field = None\<rparr>"
  let ?none = "\<lparr>error_message = None, token_field = None, app_token_field = None\<rparr>"
  let ?e = "JsError ''TypeError'' ''fetch failed'' None"
  have good: "snd (endpoint mock_world (fetch_calls mock_world) (''Bearer '' @ ''mock-oidc-token''))
      = Response mock_response \<and> body mock_response = Json ?j"
    by (simp add: mock_world_def mock_response_def)
  have good2: "ok mock_response \<and> filled (token_field ?j)"
    by (simp add: mock_response_def ok_def filled_def)
  have good3: "fetch_calls mock_world = 0"
    by (simp add: mock_world_def)
  have bad: "snd (endpoint (error_world 500) (fetch_calls (error_world 500)) (''Bearer '' @ ''mock-oidc-token''))
      = Response (error_response 500) \<and> body (error_response 500) = Json ?none"
    by (simp add: error_world_def mock_world_def error_response_def)
  have bad2: "\<not> ok (error_response 500)"
    by (simp add: error_response_def ok_def)
  have off: "snd (endpoint offline_world (fetch_calls offline_world) (''Bearer '' @ ''mock-oidc-token''))
      = NetworkError ?e"
    by (simp add: offline_world_def mock_world_def)
  from exchange_result [of mock_world "''mock-oidc-token''" mock_response ?j ?e] good good2 good3
  have 1: "fst (exchangeForAppToken ''mock-oidc-token'' mock_world) = Inr ''mock-app-token''"
    and 4: "fetch_calls (snd (exchangeForAppToken ''mock-oidc-token'' mock_world)) = 1"
    by simp_all
  from exchange_result [of "error_world 500" "''mock-oidc-token''" "error_response 500" ?none ?e] bad bad2
  have 2: "fst (exchangeForAppToken ''mock-oidc-token'' (error_world 500)) =
     Inl (JsError ''Error'' ''Unknown error'' None)"
    by simp
  from exchange_result [of offline_world "''mock-oidc-token''" mock_response ?j ?e] off
  have 3: "fst (exchangeForAppToken ''mock-oidc-token'' offline_world) = Inl ?e"
    by simp
  from 1 2 3 4 show ?thesis by simp
qed

subsection \<open>The request hook\<close>

lemma settle_allocated: "allocated (snd (settle p rt)) = allocated rt"
  by (simp add: settle_def split: option.splits prod.splits)

lemma owner_resume_allocated: "allocated (owner_resume p rt) = allocated rt"
  by (simp add: owner_resume_def split: option.splits)

lemma await_allocated: "allocated (snd (await h rt)) = allocated rt"
proof (cases h)
  case (Ready t)
  then show ?thesis by simp
next
  case (Awaiting p)
  then show ?thesis
    using settle_allocated [of p rt]
    by (simp add: owner_resume_allocated case_prod_beta)
qed

lemma refreshToken_join:
  "refreshPromise (mgr rt) = Some q \<Longrightarrow> refreshToken rt = await (Awaiting q) rt"
  by (simp add: refreshToken_def refreshToken_call_def)

lemma refreshToken_allocated:
  "allocated (snd (refreshToken rt)) =
     (if refreshPromise (mgr rt) = None then Suc (allocated rt) else allocated rt)"
proof (cases "refreshPromise (mgr rt)")
  case (Some q)
  then show ?thesis
    using await_allocated [of "Awaiting q" rt] by (simp add: refreshToken_join)
next
  case None
  obtain h rt1 where c: "refreshToken_call rt = (h, rt1)"
    by (cases "refreshToken_call rt") auto
  with None have "allocated rt1 = Suc (allocated rt)"
    by (auto simp: refreshToken_call_def Let_def split: option.splits prod.splits)
  with c None show ?thesis
    using await_allocated [of h rt1] by (simp add: refreshToken_def)
qed

lemma graphql_hook_reauth:
  "(request options (env rt) = (Inr v, w1) \<longrightarrow>
      hook_of GraphQL request options rt = (Inr v, [Sent options], rt\<lparr>env := w1\<rparr>)) \<and>
   (request options (env rt) = (Inl error, w1) \<and>
    err_status error \<noteq> Some 401 \<and> err_status error \<noteq> Some 403 \<longrightarrow>
      hook_of GraphQL request options rt = (Inl error, [Sent options], rt\<lparr>env := w1\<rparr>)) \<and>
   (request options (env rt) = (Inl error, w1) \<and>
    (err_status error = Some 401 \<or> err_status error = Some 403) \<and>
    refreshToken (rt\<lparr>env := w1\<rparr>) = (Inr newToken, rt2) \<longrightarrow>
      hook_of GraphQL request options rt =
        (fst (request (options\<lparr>authorization := ''token '' @ newToken\<rparr>) (env rt2)),
         [Sent options, Refreshed, Sent (options\<lparr>authorization := ''token '' @ newToken\<rparr>)],
         rt2\<lparr>env := snd (request (options\<lparr>authorization := ''token '' @ newToken\<rparr>) (env rt2))\<rparr>) \<and>
      allocated rt2 = (if refreshPromise (mgr rt) = None then Suc (allocated rt) else allocated rt)) \<and>
   (request options (env rt) = (Inl error, w1) \<and>
    (err_status error = Some 401 \<or> err_status error = Some 403) \<and>
    refreshToken (rt\<lparr>env := w1\<rparr>) = (Inl e, rt2) \<longrightarrow>
      hook_of GraphQL request options rt = (Inl e, [Sent options, Refreshed], rt2) \<and>
      allocated rt2 = (if refreshPromise (mgr rt) = None then Suc (allocated rt) else allocated rt))"
proof -
  have a: "refreshToken (rt\<lparr>env := w1\<rparr>) = (r, rt2) \<Longrightarrow>
      allocated rt2 = (if refreshPromise (mgr rt) = None then Suc (allocated rt) else allocated rt)"
    for r using refreshToken_allocated [of "rt\<lparr>env := w1\<rparr>"] by simp
  show ?thesis
    by (intro conjI impI)
       (auto simp: auth_hook_def Let_def a split: prod.splits)
qed

text \<open>
  Claim C6 asks of every request through a produced client, REST or GraphQL, that a
  401 or 403 brings one refresh, one update of the header and one retry. The GraphQL
  client does so (\<open>graphql_hook_reauth\<close>). On the REST client the closure is not
  installed: whatever error a request fails with, 401 and 403 included, the request
  has been sent once, the error is thrown as it is, \<open>refreshToken\<close> is not called, the
  manager and the promises are untouched, and nothing is sent again.
\<close>

theorem rest_hook_not_installed:
  "request options (env rt) = (Inl error, w1) \<Longrightarrow>
   hook_of Rest request options rt = (Inl error, [Sent options], rt\<lparr>env := w1\<rparr>)"
  by simp

lemma mock_reauth:
  "fst (hook_of GraphQL (guarded_request ''mock-app-token'') stale_options
          (runtime_of stale_manager mock_world)) = Inr ()"
  "fst (snd (hook_of GraphQL (guarded_request ''mock-app-token'') stale_options
          (runtime_of stale_manager mock_world))) =
     [Sent stale_options, Refreshed,
      Sent (stale_options\<lparr>authorization := ''token mock-app-token''\<rparr>)]"
  "allocated (snd (snd (hook_of GraphQL (guarded_request ''mock-app-token'') stale_options
          (runtime_of stale_manager mock_world)))) = 1"
  by code_simp+

theorem rest_hook_not_installed_witness:
  "guarded_request ''mock-app-token'' stale_options (env (runtime_of stale_manager mock_world))
     = (Inl (JsError ''HttpError'' ''Bad credentials'' (Some 401)), mock_world) \<and>
   fst (hook_of Rest (guarded_request ''mock-app-token'') stale_options
          (runtime_of stale_manager mock_world))
     = Inl (JsError ''HttpError'' ''Bad credentials'' (Some 401)) \<and>
   fst (snd (hook_of Rest (guarded_request ''mock-app-token'') stale_options
          (runtime_of stale_manager mock_world))) = [Sent stale_options] \<and>
   allocated (snd (snd (hook_of Rest (guarded_request ''mock-app-token'') stale_options
          (runtime_of stale_manager mock_world)))) = 0 \<and>
   token (mgr (snd (snd (hook_of Rest (guarded_request ''mock-app-token'') stale_options
          (runtime_of stale_manager mock_world))))) = Some ''old-token'' \<and>
   fst (hook_of GraphQL (guarded_request ''mock-app-token'') stale_options
          (runtime_of stale_manager mock_world)) = Inr () \<and>
   fst (snd (hook_of GraphQL (guarded_request ''mock-app-token'') stale_options
          (runtime_of stale_manager mock_world))) =
     [Sent stale_options, Refreshed,
      Sent (stale_options\<lparr>authorization := ''token mock-app-token''\<rparr>)] \<and>
   allocated (snd (snd (hook_of GraphQL (guarded_request ''mock-app-token'') stale_options
          (runtime_of stale_manager mock_world)))) = 1"
proof -
  let ?rt = "runtime_of stale_manager mock_world"
  let ?err = "JsError ''HttpError'' ''Bad credentials'' (Some 401)"
  have first: "guarded_request ''mock-app-token'' stale_options (env ?rt) = (Inl ?err, mock_world)"
    by (simp add: guarded_request_def stale_options_def runtime_of_def)
  from rest_hook_not_installed [where request = "guarded_request ''mock-app-token''"
      and options = stale_options and rt = ?rt and error = ?err and ?w1.0 = mock_world, OF first]
  have rest: "hook_of Rest (guarded_request ''mock-app-token'') stale_options ?rt =
      (Inl ?err, [Sent stale_options], ?rt\<lparr>env := mock_world\<rparr>)" .
  have "allocated (?rt\<lparr>env := mock_world\<rparr>) = 0"
    "token (mgr (?rt\<lparr>env := mock_world\<rparr>)) = Some ''old-token''"
    by (simp_all add: runtime_of_def stale_manager_def)
  with first rest mock_reauth show ?thesis by simp
qed

subsection \<open>Concurrent callers\<close>

lemma isTokenValid_refreshPromise [simp]:
  "isTokenValid (m\<lparr>refreshPromise := x\<rparr>) t = isTokenValid m t"
  by (simp add: isTokenValid_def split: option.splits)

lemma doRefresh_network_refreshPromise:
  "doRefresh_network (m\<lparr>refreshPromise := x\<rparr>) w =
     (case doRefresh_network m w of (r, m1, w1) \<Rightarrow> (r, m1\<lparr>refreshPromise := x\<rparr>, w1))"
  by (simp add: doRefresh_network_def split: prod.splits sum.splits)

lemma refreshToken_call_join:
  "refreshPromise (mgr rt) = Some q \<Longrightarrow> refreshToken_call rt = (Awaiting q, rt)"
  by (simp add: refreshToken_call_def)

lemma refreshToken_call_idle:
  "refreshPromise (mgr rt) = None \<Longrightarrow>
   fst (refreshToken_call rt) = Awaiting (allocated rt) \<and>
   allocated (snd (refreshToken_call rt)) = Suc (allocated rt)"
  by (simp add: refreshToken_call_def Let_def split: option.splits prod.splits)

lemma calls_joined:
  "refreshPromise (mgr rt) = Some p \<Longrightarrow> \<not> isTokenValid (mgr rt) (now (env rt)) \<Longrightarrow>
   getToken_calls n rt = (replicate n (Awaiting p), rt)"
  by (induction n) (simp_all add: getToken_call_def refreshToken_call_join)

lemma calls_cached:
  "isTokenValid (mgr rt) (now (env rt)) \<Longrightarrow>
   getToken_calls n rt = (replicate n (Ready (the (token (mgr rt)))), rt)"
  by (induction n) (simp_all add: getToken_call_def)

lemma calls_pending:
  assumes "refreshPromise (mgr rt) = None" and "\<not> isTokenValid (mgr rt) (now (env rt))"
    and "provided (env rt) = None"
  shows "getToken_calls (Suc n) rt =
     (replicate (Suc n) (Awaiting (allocated rt)),
      rt\<lparr>mgr := (mgr rt)\<lparr>refreshPromise := Some (allocated rt)\<rparr>,
         promises := (promises rt)(allocated rt := Promise None True),
         allocated := Suc (allocated rt)\<rparr>)"
proof -
  let ?rtA = "rt\<lparr>mgr := (mgr rt)\<lparr>refreshPromise := Some (allocated rt)\<rparr>,
         promises := (promises rt)(allocated rt := Promise None True),
         allocated := Suc (allocated rt)\<rparr>"
  from assms have first: "getToken_call rt = (Awaiting (allocated rt), ?rtA)"
    by (simp add: getToken_call_def refreshToken_call_def Let_def)
  have "getToken_calls n ?rtA = (replicate n (Awaiting (allocated rt)), ?rtA)"
    using assms(2) by (intro calls_joined) simp_all
  with first show ?thesis by simp
qed

lemma calls_override:
  assumes "refreshPromise (mgr rt) = None" and "\<not> isTokenValid (mgr rt) (now (env rt))"
    and "provided (env rt) = Some t"
  shows "getToken_calls (Suc n) rt =
     (Awaiting (allocated rt) # replicate n (Ready t),
      rt\<lparr>mgr := (mgr rt)\<lparr>token := Some t,
                tokenExpiry := Some (now (env rt) + 365 * 24 * 60 * 60 * 1000),
                refreshPromise := Some (allocated rt)\<rparr>,
         promises := (promises rt)(allocated rt := Promise (Some (Inr t)) True),
         allocated := Suc (allocated rt)\<rparr>)"
proof -
  let ?rtB = "rt\<lparr>mgr := (mgr rt)\<lparr>token := Some t,
                tokenExpiry := Some (now (env rt) + 365 * 24 * 60 * 60 * 1000),
                refreshPromise := Some (allocated rt)\<rparr>,
         promises := (promises rt)(allocated rt := Promise (Some (Inr t)) True),
         allocated := Suc (allocated rt)\<rparr>"
  from assms have first: "getToken_call rt = (Awaiting (allocated rt), ?rtB)"
    by (simp add: getToken_call_def refreshToken_call_def doRefresh_def Let_def)
  from assms(3) have "t \<noteq> []" by (rule provided_nonempty)
  then have valid: "isTokenValid (mgr ?rtB) (now (env ?rtB))"
    by (simp add: isTokenValid_def)
  have "getToken_calls n ?rtB = (replicate n (Ready (the (token (mgr ?rtB)))), ?rtB)"
    using valid by (rule calls_cached)
  with first show ?thesis by simp
qed

text \<open>
  Claim C1. A call of \<open>refreshToken\<close> that finds a promise in \<open>refreshPromise\<close>
  returns that promise and changes nothing. So when \<open>n\<close> callers call \<open>getToken()\<close>
  one after the other on a manager that has no valid token and no refresh in flight,
  one \<open>doRefresh\<close> is started, by the first of them. Once its promise has settled,
  every caller sees the same outcome, and that outcome, the manager and the world are
  those of one run of \<open>doRefresh\<close> from the state before the calls: the network
  has been used as one refresh uses it. When the first caller resumes, \<open>refreshPromise\<close>
  is null, whether the outcome is a token or an error, and the next call of
  \<open>refreshToken\<close> starts a \<open>doRefresh\<close> of its own, with a new promise.
\<close>

theorem single_flight:
  assumes "refreshPromise (mgr rt) = None" and "\<not> isTokenValid (mgr rt) (now (env rt))"
    and "0 < n"
  shows "(case getToken_calls n rt of
      (hs, rt1) \<Rightarrow>
        length hs = n \<and>
        allocated rt1 = Suc (allocated rt) \<and>
        refreshPromise (mgr rt1) = Some (allocated rt) \<and>
        (case settle (allocated rt) rt1 of
           (r, rt2) \<Rightarrow>
             (\<forall>h\<in>set hs. observe rt2 h = Some r) \<and>
             (r, mgr (owner_resume (allocated rt) rt2), env (owner_resume (allocated rt) rt2))
               = doRefresh (mgr rt) (env rt) \<and>
             refreshPromise (mgr (owner_resume (allocated rt) rt2)) = None \<and>
             fst (refreshToken_call (owner_resume (allocated rt) rt2)) = Awaiting (Suc (allocated rt)) \<and>
             allocated (snd (refreshToken_call (owner_resume (allocated rt) rt2)))
               = Suc (Suc (allocated rt)))) \<and>
    (\<forall>rt' q. refreshPromise (mgr rt') = Some q \<longrightarrow> refreshToken_call rt' = (Awaiting q, rt'))"
proof -
  from assms(3) obtain k where n: "n = Suc k" by (cases n) auto
  let ?p = "allocated rt"
  have main: "case getToken_calls (Suc k) rt of
      (hs, rt1) \<Rightarrow>
        length hs = Suc k \<and>
        allocated rt1 = Suc ?p \<and>
        refreshPromise (mgr rt1) = Some ?p \<and>
        (case settle ?p rt1 of
           (r, rt2) \<Rightarrow>
             (\<forall>h\<in>set hs. observe rt2 h = Some r) \<and>
             (r, mgr (owner_resume ?p rt2), env (owner_resume ?p rt2)) = doRefresh (mgr rt) (env rt) \<and>
             refreshPromise (mgr (owner_resume ?p rt2)) = None \<and>
             fst (refreshToken_call (owner_resume ?p rt2)) = Awaiting (Suc ?p) \<and>
             allocated (snd (refreshToken_call (owner_resume ?p rt2))) = Suc (Suc ?p))"
  proof (cases "provided (env rt)")
    case None
    obtain r m1 w1 where net: "doRefresh_network (mgr rt) (env rt) = (r, m1, w1)"
      by (cases "doRefresh_network (mgr rt) (env rt)") auto
    from doRefresh_network_cases [of "mgr rt" "env rt"] net assms(1)
    have keep: "refreshPromise m1 = None" by auto
    show ?thesis
      unfolding calls_pending [OF assms(1,2) None]
      using None net keep
      by (simp add: settle_def owner_resume_def doRefresh_def doRefresh_network_refreshPromise
          refreshToken_call_def Let_def split: option.splits)
  next
    case (Some t)
    show ?thesis
      unfolding calls_override [OF assms(1,2) Some]
      using Some assms(1)
      by (auto simp: settle_def owner_resume_def doRefresh_def refreshToken_call_def Let_def
          split: option.splits)
  qed
  show ?thesis
    using main unfolding n by (simp add: refreshToken_call_join)
qed

lemma five_callers:
  "map (observe (snd (settle 0 (snd (getToken_calls 5 (runtime_of new_manager mock_world))))))
     (fst (getToken_calls 5 (runtime_of new_manager mock_world)))
     = replicate 5 (Some (Inr ''mock-app-token''))"
  "fetch_calls (env (snd (settle 0 (snd (getToken_calls 5 (runtime_of new_manager mock_world)))))) = 1"
  "isl (fst (settle 0 (snd (getToken_calls 5 (runtime_of new_manager denied_world)))))"
  "idp_calls (env (snd (settle 0 (snd (getToken_calls 5 (runtime_of new_manager denied_world)))))) = 3"
  by code_simp+

theorem single_flight_witness:
  "refreshPromise (mgr (runtime_of new_manager mock_world)) = None \<and>
   \<not> isTokenValid (mgr (runtime_of new_manager mock_world))
        (now (env (runtime_of new_manager mock_world))) \<and>
   (0::nat) < 5 \<and>
   length (fst (getToken_calls 5 (runtime_of new_manager mock_world))) = 5 \<and>
   allocated (snd (getToken_calls 5 (runtime_of new_manager mock_world))) = 1 \<and>
   map (observe (snd (settle 0 (snd (getToken_calls 5 (runtime_of new_manager mock_world))))))
     (fst (getToken_calls 5 (runtime_of new_manager mock_world)))
     = replicate 5 (Some (Inr ''mock-app-token'')) \<and>
   fetch_calls (env (snd (settle 0 (snd (getToken_calls 5 (runtime_of new_manager mock_world)))))) = 1 \<and>
   refreshPromise (mgr (owner_resume 0
      (snd (settle 0 (snd (getToken_calls 5 (runtime_of new_manager mock_world))))))) = None"
proof -
  let ?rt = "runtime_of new_manager mock_world"
  have h1: "refreshPromise (mgr ?rt) = None"
    by (simp add: runtime_of_def new_manager_def)
  have h2: "\<not> isTokenValid (mgr ?rt) (now (env ?rt))"
    by (simp add: runtime_of_def new_manager_def isTokenValid_def)
  have h3: "(0::nat) < 5" by simp
  have z: "allocated ?rt = 0" by (simp add: runtime_of_def)
  note sf = single_flight [OF h1 h2 h3, unfolded z]
  from sf have len: "length (fst (getToken_calls 5 ?rt)) = 5"
    by (simp add: case_prod_beta)
  from sf have one: "allocated (snd (getToken_calls 5 ?rt)) = 1"
    by (simp add: case_prod_beta)
  from sf have idle: "refreshPromise (mgr (owner_resume 0 (snd (settle 0 (snd (getToken_calls 5 ?rt)))))) = None"
    by (simp add: case_prod_beta)
  from h1 h2 h3 len one idle five_callers(1,2) show ?thesis by blast
qed

end
